theory Spec2Isabelle
  imports Main "HOL-Library.Sublist"
begin

section \<open>Data model (labels/path-rules/types.ts)\<close>

text \<open>
  JavaScript strings are modelled as \<open>string\<close> (a list of characters, one per
  code unit), \<open>undefined\<close> and an absent optional field as \<open>None\<close>.
\<close>

datatype PathMatchMode = Exact | Prefix

text \<open>The interface \<open>PathRule\<close>. The fields \<open>id\<close> and \<open>value\<close> are named
  \<open>rule_id\<close> and \<open>rule_value\<close> here (both names are taken in Isabelle).\<close>

record PathRule =
  rule_id :: string
  path :: string
  match :: PathMatchMode
  labelId :: string
  rule_value :: "string option"
  enabled :: "bool option"
  description :: "string option"

text \<open>The interface \<open>PathRulesConfig\<close>. The type parameter is the representation of
  a rule: \<open>PathRule\<close> for the evaluator, the raw parsed JSON value for the store, whose
  type guard \<open>isValidRule\<close> is a cast and converts nothing.\<close>

record 'r PathRulesConfig =
  version :: nat
  rules :: "'r list"

record PathRuleMatch =
  rule :: PathRule
  labelEntry :: string

text \<open>Of a \<open>LabelConfig\<close> (labels/types.ts) the evaluator reads the fields \<open>id\<close> and
  \<open>children\<close> only.\<close>

datatype LabelConfig = LabelConfig (label_id: string) (children: "LabelConfig list option")


section \<open>The host: Node's path module and the platform\<close>

text \<open>
  \<open>matchesPath\<close> calls \<open>path.resolve\<close>, \<open>path.normalize\<close>, \<open>path.relative\<close> and
  \<open>path.isAbsolute\<close> of Node's standard library, reads \<open>process.platform\<close> and, on
  Windows, calls \<open>String.prototype.toLowerCase\<close>. None of these is code of the
  repository: the functions of the evaluator take them as a parameter.
\<close>

record node_host =
  win32 :: bool
  path_resolve :: "string \<Rightarrow> string"
  path_normalize :: "string \<Rightarrow> string"
  path_relative :: "string \<Rightarrow> string \<Rightarrow> string"
  path_isAbsolute :: "string \<Rightarrow> bool"
  toLowerCase :: "string \<Rightarrow> string"

subsection \<open>The POSIX instance of the path module\<close>

text \<open>
  Modelled from the spec: Node's \<open>path.posix\<close> (lib/path.js of Node, not a file of the
  repository), which the spec describes as resolving both inputs to absolute, normalized
  form at the string level, against a base if a path is relative, and as computing the
  relative path from one to the other. The definitions follow Node's implementation;
  \<open>cwd\<close> is \<open>process.cwd()\<close>, an absolute path.
\<close>

text \<open>The segments of a path: the pieces between the separators.\<close>

fun split_on :: "char \<Rightarrow> string \<Rightarrow> string list" where
  "split_on sep [] = [[]]"
| "split_on sep (c # cs) =
     (if c = sep then [] # split_on sep cs
      else (case split_on sep cs of
              [] \<Rightarrow> [[c]]
            | s # ss \<Rightarrow> (c # s) # ss))"

fun join_with :: "string \<Rightarrow> string list \<Rightarrow> string" where
  "join_with sep [] = []"
| "join_with sep [s] = s"
| "join_with sep (s # t # ss) = s @ sep @ join_with sep (t # ss)"

text \<open>One segment of \<open>normalizeString\<close>: an empty segment and \<open>.\<close> are dropped,
  \<open>..\<close> removes the last segment kept so far unless there is none or it is \<open>..\<close>
  itself (then \<open>..\<close> is kept when \<open>allowAboveRoot\<close>), any other segment is kept.\<close>

definition normalize_step :: "bool \<Rightarrow> string list \<Rightarrow> string \<Rightarrow> string list" where
  "normalize_step allowAboveRoot res seg =
     (if seg = [] \<or> seg = ''.'' then res
      else if seg = ''..'' then
        (if res \<noteq> [] \<and> last res \<noteq> ''..'' then butlast res
         else if allowAboveRoot then res @ [''..'']
         else res)
      else res @ [seg])"

definition normalizeString :: "string \<Rightarrow> bool \<Rightarrow> string" where
  "normalizeString p allowAboveRoot =
     join_with ''/'' (foldl (normalize_step allowAboveRoot) [] (split_on CHR ''/'' p))"

definition posix_isAbsolute :: "string \<Rightarrow> bool" where
  "posix_isAbsolute p = (case p of [] \<Rightarrow> False | c # _ \<Rightarrow> c = CHR ''/'')"

text \<open>\<open>path.posix.resolve\<close> with one argument: the argument, when it is not absolute
  (or is empty), is resolved against the working directory.\<close>

definition posix_resolve :: "string \<Rightarrow> string \<Rightarrow> string" where
  "posix_resolve cwd p =
     (let resolvedPath1 = (if p = [] then [] else p @ ''/'');
          absolute1 = (p \<noteq> [] \<and> posix_isAbsolute p);
          resolvedPath = (if absolute1 \<or> cwd = [] then resolvedPath1
                          else cwd @ ''/'' @ resolvedPath1);
          resolvedAbsolute = (if absolute1 \<or> cwd = [] then absolute1
                              else posix_isAbsolute cwd);
          normalized = normalizeString resolvedPath (\<not> resolvedAbsolute)
      in if resolvedAbsolute then ''/'' @ normalized
         else if normalized \<noteq> [] then normalized else ''.'')"

definition posix_normalize :: "string \<Rightarrow> string" where
  "posix_normalize p =
     (if p = [] then ''.''
      else
        let isAbsolute = posix_isAbsolute p;
            trailingSeparator = (last p = CHR ''/'');
            normalized = normalizeString p (\<not> isAbsolute)
        in if normalized = [] then
             (if isAbsolute then ''/'' else if trailingSeparator then ''./'' else ''.'')
           else
             (let q = (if trailingSeparator then normalized @ ''/'' else normalized)
              in if isAbsolute then ''/'' @ q else q))"

text \<open>The first loop of \<open>path.posix.relative\<close>: the length \<open>i\<close> of the common prefix of
  the two paths (after their leading separator) and the index of the last separator in
  it (\<open>-1\<close> when there is none).\<close>

fun relative_scan :: "string \<Rightarrow> string \<Rightarrow> nat \<Rightarrow> int \<Rightarrow> nat \<times> int" where
  "relative_scan (a # as) (b # bs) i lastCommonSep =
     (if a \<noteq> b then (i, lastCommonSep)
      else relative_scan as bs (Suc i) (if a = CHR ''/'' then int i else lastCommonSep))"
| "relative_scan _ _ i lastCommonSep = (i, lastCommonSep)"

definition posix_relative :: "string \<Rightarrow> string \<Rightarrow> string \<Rightarrow> string" where
  "posix_relative cwd from0 to0 =
     (if from0 = to0 then []
      else
        let from = posix_resolve cwd from0;
            to = posix_resolve cwd to0
        in if from = to then []
           else
             let fromEnd = length from;
                 fromLen = int fromEnd - 1;
                 toLen = int (length to) - 1;
                 len = min fromLen toLen;
                 (i, sep0) = relative_scan (drop 1 from) (drop 1 to) 0 (- 1)
             in if int i = len \<and> toLen > len \<and> to ! (1 + i) = CHR ''/''
                then drop (1 + i + 1) to
                else if int i = len \<and> toLen > len \<and> i = 0
                then drop (1 + i) to
                else
                  let lastCommonSep =
                        (if int i = len \<and> \<not> toLen > len \<and> fromLen > len then
                           (if from ! (1 + i) = CHR ''/'' then int i
                            else if i = 0 then 0
                            else sep0)
                         else sep0);
                      out = foldl (\<lambda>out k.
                               if k = fromEnd \<or> from ! k = CHR ''/''
                               then out @ (if out = [] then ''..'' else ''/..'')
                               else out)
                             [] [nat (1 + lastCommonSep + 1) ..< Suc fromEnd]
                  in out @ drop (nat (1 + lastCommonSep)) to)"

definition posix_host :: "string \<Rightarrow> node_host" where
  "posix_host cwd =
     \<lparr> win32 = False,
       path_resolve = posix_resolve cwd,
       path_normalize = posix_normalize,
       path_relative = posix_relative cwd,
       path_isAbsolute = posix_isAbsolute,
       toLowerCase = (\<lambda>s. s) \<rparr>"


section \<open>The evaluator (labels/path-rules/evaluator.ts)\<close>

definition normalizePath :: "node_host \<Rightarrow> string \<Rightarrow> string" where
  "normalizePath host inputPath =
     (let normalized = path_normalize host (path_resolve host inputPath)
      in if win32 host then toLowerCase host normalized else normalized)"

text \<open>\<open>s.startsWith(p)\<close>.\<close>

definition startsWith :: "string \<Rightarrow> string \<Rightarrow> bool" where
  "startsWith s p = (take (length p) s = p)"

definition matchesPath :: "node_host \<Rightarrow> string \<Rightarrow> string \<Rightarrow> PathMatchMode \<Rightarrow> bool" where
  "matchesPath host rulePath workingDirectory mode =
     (let normalizedRule = normalizePath host rulePath;
          normalizedWorkDir = normalizePath host workingDirectory
      in if mode = Exact then normalizedRule = normalizedWorkDir
         else
           let rel = path_relative host normalizedRule normalizedWorkDir
           in rel = [] \<or> (\<not> startsWith rel ''..'' \<and> \<not> path_isAbsolute host rel))"

text \<open>The recursive search of the label tree, depth first, the first hit returned.
  A node without children and a node with an empty list of children are skipped alike.\<close>

fun findLabelById :: "LabelConfig list \<Rightarrow> string \<Rightarrow> LabelConfig option" where
  "findLabelById [] lid = None"
| "findLabelById (LabelConfig i ch # rest) lid =
     (if i = lid then Some (LabelConfig i ch)
      else (case ch of
              None \<Rightarrow> findLabelById rest lid
            | Some cs \<Rightarrow>
                (case findLabelById cs lid of
                   Some found \<Rightarrow> Some found
                 | None \<Rightarrow> findLabelById rest lid)))"

text \<open>The label entry of a rule: \<open>labelId::value\<close> when the rule has a non-empty
  value (an empty string is falsy), the bare \<open>labelId\<close> otherwise.\<close>

definition labelEntryOf :: "PathRule \<Rightarrow> string" where
  "labelEntryOf r =
     (case rule_value r of
        None \<Rightarrow> labelId r
      | Some v \<Rightarrow> if v = [] then labelId r else labelId r @ ''::'' @ v)"

text \<open>The loop of \<open>evaluatePathRules\<close> over the sorted rules; \<open>seen\<close> is the set
  \<open>seenLabelEntries\<close>, the result the entries pushed to \<open>matches\<close>, in order.\<close>

fun evaluate_loop ::
  "node_host \<Rightarrow> string \<Rightarrow> LabelConfig list option \<Rightarrow> PathRule list \<Rightarrow> string set
    \<Rightarrow> PathRuleMatch list" where
  "evaluate_loop host wd labels [] seen = []"
| "evaluate_loop host wd labels (r # rs) seen =
     (if \<not> matchesPath host (path r) wd (match r) then evaluate_loop host wd labels rs seen
      else if (case labels of
                 None \<Rightarrow> False
               | Some tree \<Rightarrow> findLabelById tree (labelId r) = None)
      then evaluate_loop host wd labels rs seen
      else
        let entry = labelEntryOf r
        in if entry \<in> seen then evaluate_loop host wd labels rs seen
           else \<lparr> rule = r, labelEntry = entry \<rparr>
                  # evaluate_loop host wd labels rs (insert entry seen))"

text \<open>\<open>Array.prototype.sort\<close> is stable, and the comparator
  \<open>b.path.length - a.path.length\<close> orders by path length, longest first: the stable
  insertion sort on the key \<open>- length\<close> returns the same list.\<close>

definition sortedRules :: "PathRule list \<Rightarrow> PathRule list" where
  "sortedRules enabledRules = sort_key (\<lambda>r. - int (length (path r))) enabledRules"

definition evaluatePathRules ::
  "node_host \<Rightarrow> string option \<Rightarrow> PathRule PathRulesConfig \<Rightarrow> LabelConfig list option
    \<Rightarrow> PathRuleMatch list" where
  "evaluatePathRules host workingDirectory config labels =
     (case workingDirectory of
        None \<Rightarrow> []
      | Some wd \<Rightarrow>
          if wd = [] then []
          else
            let enabledRules = filter (\<lambda>r. enabled r \<noteq> Some False) (rules config)
            in evaluate_loop host wd labels (sortedRules enabledRules) {})"

text \<open>\<open>entry.split('::')[0]\<close>: the part of the entry before its first \<open>::\<close>, the
  whole entry when it has none.\<close>

fun bareId :: "string \<Rightarrow> string" where
  "bareId (c # d # cs) =
     (if c = CHR '':'' \<and> d = CHR '':'' then [] else c # bareId (d # cs))"
| "bareId cs = cs"

definition hasExistingValue :: "string set \<Rightarrow> string \<Rightarrow> bool" where
  "hasExistingValue existingLabels b =
     (\<exists>l \<in> existingLabels. l = b \<or> startsWith l (b @ ''::''))"

text \<open>The loop of \<open>applyPathRuleMatches\<close>: the entries pushed to \<open>newLabels\<close>, in
  order. The set \<open>existingLabels\<close> is built once, before the loop, and never updated.\<close>

fun newLabels :: "string set \<Rightarrow> PathRuleMatch list \<Rightarrow> string list" where
  "newLabels existingLabels [] = []"
| "newLabels existingLabels (m # ms) =
     (if labelEntry m \<notin> existingLabels
         \<and> \<not> hasExistingValue existingLabels (bareId (labelEntry m))
      then labelEntry m # newLabels existingLabels ms
      else newLabels existingLabels ms)"

text \<open>\<open>currentLabels ?? []\<close>.\<close>

definition orEmpty :: "string list option \<Rightarrow> string list" where
  "orEmpty currentLabels = (case currentLabels of None \<Rightarrow> [] | Some ls \<Rightarrow> ls)"

definition applyPathRuleMatches ::
  "string list option \<Rightarrow> PathRuleMatch list \<Rightarrow> string list option" where
  "applyPathRuleMatches currentLabels matches =
     (if matches = [] then currentLabels
      else
        let staged = newLabels (set (orEmpty currentLabels)) matches
        in if staged = [] then currentLabels
           else Some (orEmpty currentLabels @ staged))"


section \<open>The rule store (labels/path-rules/storage.ts)\<close>

text \<open>A value returned by \<open>JSON.parse\<close>. The payload of a number is never read.
  An object is the list of its own properties, each key once.\<close>

datatype json =
    JNull
  | JBool bool
  | JNumber int
  | JString string
  | JArray "json list"
  | JObject "(string \<times> json) list"

datatype js_type = TObject | TBoolean | TNumber | TString

fun typeof :: "json \<Rightarrow> js_type" where
  "typeof JNull = TObject"
| "typeof (JBool _) = TBoolean"
| "typeof (JNumber _) = TNumber"
| "typeof (JString _) = TString"
| "typeof (JArray _) = TObject"
| "typeof (JObject _) = TObject"

text \<open>Reading a property \<open>v.k\<close> of an object or an array, for the keys the store reads
  (\<open>rules\<close>, \<open>id\<close>, \<open>path\<close>, \<open>match\<close>, \<open>labelId\<close>): \<open>None\<close> is \<open>undefined\<close>, which
  is what an array gives for each of them.\<close>

fun get_prop :: "json \<Rightarrow> string \<Rightarrow> json option" where
  "get_prop (JObject kvs) k = map_of kvs k"
| "get_prop _ k = None"

text \<open>What a call into the host can throw.\<close>

datatype js_error = FsError | SyntaxError

text \<open>The host of the store: \<open>fs.existsSync\<close>, \<open>fs.readFileSync\<close> (with the encoding
  \<open>utf-8\<close>), \<open>JSON.parse\<close> and \<open>path.join\<close>. \<open>Inl\<close> is a thrown exception.\<close>

record store_host =
  existsSync :: "string \<Rightarrow> bool"
  readFileSync :: "string \<Rightarrow> js_error + string"
  JSON_parse :: "string \<Rightarrow> js_error + json"
  path_join :: "string list \<Rightarrow> string"

definition PATH_RULES_FILENAME :: string where
  "PATH_RULES_FILENAME = ''path-rules.json''"

definition getPathRulesPath :: "store_host \<Rightarrow> string \<Rightarrow> string" where
  "getPathRulesPath host workspaceRootPath =
     path_join host [workspaceRootPath, ''labels'', PATH_RULES_FILENAME]"

definition createDefaultConfig :: "json PathRulesConfig" where
  "createDefaultConfig = \<lparr> version = 1, rules = [] \<rparr>"

text \<open>\<open>typeof v === 'string'\<close> for a property that may be absent.\<close>

fun isString :: "json option \<Rightarrow> bool" where
  "isString (Some (JString _)) = True"
| "isString _ = False"

definition isValidRule :: "json \<Rightarrow> bool" where
  "isValidRule r =
     (if typeof r \<noteq> TObject \<or> r = JNull then False
      else isString (get_prop r ''id'')
         \<and> isString (get_prop r ''path'')
         \<and> (get_prop r ''match'' = Some (JString ''exact'')
              \<or> get_prop r ''match'' = Some (JString ''prefix''))
         \<and> isString (get_prop r ''labelId''))"

text \<open>The body of the \<open>try\<close> block of \<open>loadPathRulesConfig\<close>. The loop that pushes each
  valid entry of \<open>parsed.rules\<close> is a \<open>filter\<close>.\<close>

definition load_try :: "store_host \<Rightarrow> string \<Rightarrow> js_error + json PathRulesConfig" where
  "load_try host configPath =
     (if \<not> existsSync host configPath then Inr createDefaultConfig
      else
        (case readFileSync host configPath of
           Inl e \<Rightarrow> Inl e
         | Inr content \<Rightarrow>
             (case JSON_parse host content of
                Inl e \<Rightarrow> Inl e
              | Inr parsed \<Rightarrow>
                  if typeof parsed \<noteq> TObject \<or> parsed = JNull then Inr createDefaultConfig
                  else
                    Inr \<lparr> version = 1,
                          rules = (case get_prop parsed ''rules'' of
                                     Some (JArray rs) \<Rightarrow> filter isValidRule rs
                                   | _ \<Rightarrow> []) \<rparr>)))"

text \<open>\<open>loadPathRulesConfig\<close>: the \<open>catch\<close> clause turns every exception of the body
  into the default configuration.\<close>

definition loadPathRulesConfig :: "store_host \<Rightarrow> string \<Rightarrow> js_error + json PathRulesConfig" where
  "loadPathRulesConfig host workspaceRootPath =
     (let configPath = getPathRulesPath host workspaceRootPath
      in case load_try host configPath of
           Inl error \<Rightarrow> Inr createDefaultConfig
         | Inr config \<Rightarrow> Inr config)"


section \<open>Fixtures for the examples\<close>

definition mk_rule ::
  "string \<Rightarrow> string \<Rightarrow> PathMatchMode \<Rightarrow> string \<Rightarrow> string option \<Rightarrow> PathRule" where
  "mk_rule i p m l v =
     \<lparr> rule_id = i, path = p, match = m, labelId = l, rule_value = v,
       enabled = None, description = None \<rparr>"

definition mk_match :: "PathRule \<Rightarrow> PathRuleMatch" where
  "mk_match r = \<lparr> rule = r, labelEntry = labelEntryOf r \<rparr>"

text \<open>A store host whose rule document exists and parses to the given value.\<close>

definition host_with_document :: "json \<Rightarrow> store_host" where
  "host_with_document doc =
     \<lparr> existsSync = (\<lambda>p. True),
       readFileSync = (\<lambda>p. Inr ''(document)''),
       JSON_parse = (\<lambda>s. Inr doc),
       path_join = (\<lambda>ps. join_with ''/'' ps) \<rparr>"

text \<open>The rule set of the specificity example: a rule for \<open>/a\<close> with label \<open>X\<close>,
  declared before a rule for \<open>/a/b\<close> with label \<open>Y\<close>.\<close>

definition example_rules :: "PathRule list" where
  "example_rules =
     [mk_rule ''r1'' ''/a'' Prefix ''X'' None, mk_rule ''r2'' ''/a/b'' Prefix ''Y'' None]"

text \<open>A rule set with two rules of equal path length (\<open>/a/b\<close> and \<open>/a/.\<close>), a
  shorter one declared first and a longer one that does not match \<open>/a/b/c\<close>.\<close>

definition tie_rules :: "PathRule list" where
  "tie_rules =
     [mk_rule ''r1'' ''/a'' Prefix ''X'' None,
      mk_rule ''r2'' ''/a/b'' Prefix ''Y'' None,
      mk_rule ''r3'' ''/a/.'' Prefix ''Z'' None,
      mk_rule ''r4'' ''/a/b/c/d'' Prefix ''W'' None]"

text \<open>The entries of a rule document: two valid entries around one without \<open>path\<close>.\<close>

definition example_entries :: "json list" where
  "example_entries =
     [JObject [(''id'', JString ''r1''), (''path'', JString ''/a''),
               (''match'', JString ''prefix''), (''labelId'', JString ''X'')],
      JObject [(''id'', JString ''r2''), (''match'', JString ''exact''),
               (''labelId'', JString ''Y'')],
      JObject [(''id'', JString ''r3''), (''path'', JString ''/a/b''),
               (''match'', JString ''exact''), (''labelId'', JString ''Z''),
               (''value'', JString ''1''), (''enabled'', JBool False)]]"

definition document_with_version :: "json \<Rightarrow> json" where
  "document_with_version v =
     JObject [(''version'', v), (''rules'', JArray example_entries)]"


section \<open>Properties of the path matcher\<close>

text \<open>The definitions that evaluate the matcher on POSIX paths.\<close>

lemmas posix_defs =
  matchesPath_def normalizePath_def posix_host_def posix_relative_def posix_normalize_def
  posix_resolve_def posix_isAbsolute_def normalizeString_def normalize_step_def startsWith_def

subsection \<open>Exact mode\<close>

text \<open>
  Claim C7. In exact mode a rule path matches a working directory if and only if the two
  normalized paths are equal. On POSIX the rule path \<open>/a/b\<close> matches exactly the working
  directories that normalize to \<open>/a/b\<close>: it matches \<open>/a/b\<close> and matches neither
  \<open>/a/b/c\<close> nor \<open>/a\<close>.
\<close>

theorem exact_match_iff:
  "matchesPath host rulePath wd Exact = (normalizePath host rulePath = normalizePath host wd)
   \<and> matchesPath (posix_host cwd) ''/a/b'' wd Exact
       = (normalizePath (posix_host cwd) wd = ''/a/b'')
   \<and> matchesPath (posix_host cwd) ''/a/b'' ''/a/b'' Exact
   \<and> \<not> matchesPath (posix_host cwd) ''/a/b'' ''/a/b/c'' Exact
   \<and> \<not> matchesPath (posix_host cwd) ''/a/b'' ''/a'' Exact"
proof (intro conjI)
  show "matchesPath host rulePath wd Exact
      = (normalizePath host rulePath = normalizePath host wd)"
    by (simp add: matchesPath_def)
  have n: "normalizePath (posix_host cwd) ''/a/b'' = ''/a/b''"
    by (simp add: posix_defs)
  show "matchesPath (posix_host cwd) ''/a/b'' wd Exact
       = (normalizePath (posix_host cwd) wd = ''/a/b'')"
    unfolding matchesPath_def n by auto
  show "matchesPath (posix_host cwd) ''/a/b'' ''/a/b'' Exact"
    by (simp add: matchesPath_def)
  show "\<not> matchesPath (posix_host cwd) ''/a/b'' ''/a/b/c'' Exact"
    by (simp add: posix_defs)
  show "\<not> matchesPath (posix_host cwd) ''/a/b'' ''/a'' Exact"
    by (simp add: posix_defs)
qed

theorem exact_match_iff_witness:
  "matchesPath (posix_host ''/home/u'') ''/a/b'' ''../../a/./b/'' Exact
   \<and> normalizePath (posix_host ''/home/u'') ''../../a/./b/'' = ''/a/b''"
proof -
  have "normalizePath (posix_host ''/home/u'') ''../../a/./b/'' = ''/a/b''"
    by (simp add: posix_defs)
  moreover from exact_match_iff [of _ _ "''../../a/./b/''" "''/home/u''"]
  have "matchesPath (posix_host ''/home/u'') ''/a/b'' ''../../a/./b/'' Exact
      = (normalizePath (posix_host ''/home/u'') ''../../a/./b/'' = ''/a/b'')"
    by blast
  ultimately show ?thesis by simp
qed

subsection \<open>Prefix mode\<close>

text \<open>The examples of the prefix boundary: \<open>/a/b\<close> does not match \<open>/a/b2\<close> and
  matches \<open>/a/b\<close> and \<open>/a/b/c\<close>.\<close>

lemma prefix_boundary_examples:
  "\<not> matchesPath (posix_host cwd) ''/a/b'' ''/a/b2'' Prefix"
  "matchesPath (posix_host cwd) ''/a/b'' ''/a/b'' Prefix"
  "matchesPath (posix_host cwd) ''/a/b'' ''/a/b/c'' Prefix"
  by (simp_all add: posix_defs)

text \<open>
  Claim C4 says that prefix mode matches unless the relative path starts with a
  parent-traversal segment, containment being decided at segment boundaries and never by
  string prefix. The code tests the relative path with \<open>startsWith('..')\<close>, a test on
  characters: for the rule path \<open>/a\<close> and the working directory \<open>/a/..cache\<close>, a
  subdirectory of \<open>/a\<close>, the relative path is \<open>..cache\<close>, whose first segment is not
  \<open>..\<close> and which is not absolute, and the rule does not match.
\<close>

theorem prefix_rejects_child_named_with_dots:
  "path_relative (posix_host cwd) (normalizePath (posix_host cwd) ''/a'')
       (normalizePath (posix_host cwd) ''/a/..cache'') = ''..cache''
   \<and> hd (split_on CHR ''/'' ''..cache'') \<noteq> ''..''
   \<and> \<not> posix_isAbsolute ''..cache''
   \<and> \<not> matchesPath (posix_host cwd) ''/a'' ''/a/..cache'' Prefix"
  by (simp add: posix_defs)

theorem prefix_rejects_child_named_with_dots_witness:
  "\<not> matchesPath (posix_host ''/home/u'') ''/a'' ''/a/..cache'' Prefix"
  using prefix_rejects_child_named_with_dots [of "''/home/u''"] by blast


section \<open>Properties of the evaluator\<close>

lemma evaluate_loop_subseq:
  "subseq (map rule (evaluate_loop host wd labels rs seen)) rs"
  by (induction rs arbitrary: seen) (auto simp: Let_def)

lemma sortedRules_sorted:
  "sorted_wrt (\<lambda>a b. length (path b) \<le> length (path a)) (sortedRules rs)"
proof -
  have "sorted (map (\<lambda>r. - int (length (path r))) (sortedRules rs))"
    unfolding sortedRules_def by (rule sorted_sort_key)
  then show ?thesis by (simp add: sorted_map)
qed

lemma sortedRules_stable:
  "filter (\<lambda>r. length (path r) = k) (sortedRules rs) = filter (\<lambda>r. length (path r) = k) rs"
proof -
  have "filter (\<lambda>r. - int (length (path r)) = - int k) (sortedRules rs)
      = filter (\<lambda>r. - int (length (path r)) = - int k) rs"
    unfolding sortedRules_def by (rule sort_key_stable)
  then show ?thesis by simp
qed

lemma sorted_wrt_subseq: "subseq xs ys \<Longrightarrow> sorted_wrt R ys \<Longrightarrow> sorted_wrt R xs"
proof (induction rule: list_emb.induct)
  case (list_emb_Cons2 x y xs ys)
  then have "\<forall>z \<in> set xs. R x z"
    by (auto elim: list_emb_set)
  with list_emb_Cons2 show ?case by simp
qed simp_all

lemma evaluate_subseq_sorted:
  "subseq (map rule (evaluatePathRules host wd config labels))
     (sortedRules (filter (\<lambda>r. enabled r \<noteq> Some False) (rules config)))"
  by (auto simp: evaluatePathRules_def evaluate_loop_subseq split: option.splits)

lemma evaluate_example:
  "evaluatePathRules (posix_host cwd) (Some ''/a/b/c'')
          \<lparr> version = v, rules = example_rules \<rparr> None
       = [mk_match (mk_rule ''r2'' ''/a/b'' Prefix ''Y'' None),
          mk_match (mk_rule ''r1'' ''/a'' Prefix ''X'' None)]"
proof -
  have m1: "matchesPath (posix_host cwd) ''/a/b'' ''/a/b/c'' Prefix"
    by (simp add: posix_defs)
  have m2: "matchesPath (posix_host cwd) ''/a'' ''/a/b/c'' Prefix"
    by (simp add: posix_defs)
  show ?thesis
    by (simp add: evaluatePathRules_def sortedRules_def example_rules_def mk_rule_def
        mk_match_def labelEntryOf_def Let_def m1 m2)
qed

lemma evaluate_tie_rules:
  "evaluatePathRules (posix_host cwd) (Some ''/a/b/c'')
          \<lparr> version = v, rules = tie_rules \<rparr> None
       = [mk_match (mk_rule ''r2'' ''/a/b'' Prefix ''Y'' None),
          mk_match (mk_rule ''r3'' ''/a/.'' Prefix ''Z'' None),
          mk_match (mk_rule ''r1'' ''/a'' Prefix ''X'' None)]"
proof -
  have m1: "matchesPath (posix_host cwd) ''/a/b'' ''/a/b/c'' Prefix"
    by (simp add: posix_defs)
  have m2: "matchesPath (posix_host cwd) ''/a'' ''/a/b/c'' Prefix"
    by (simp add: posix_defs)
  have m3: "matchesPath (posix_host cwd) ''/a/.'' ''/a/b/c'' Prefix"
    by (simp add: posix_defs)
  have m4: "\<not> matchesPath (posix_host cwd) ''/a/b/c/d'' ''/a/b/c'' Prefix"
    by (simp add: posix_defs)
  show ?thesis
    by (simp add: evaluatePathRules_def sortedRules_def tie_rules_def mk_rule_def
        mk_match_def labelEntryOf_def Let_def m1 m2 m3 m4)
qed

text \<open>
  Claim C6. The rules of the matches returned by an evaluation are ordered by the length
  of their path, longest first, and the rules of equal path length keep the relative
  order they have in the rule set (the sort is stable). With prefix rules for \<open>/a\<close>
  (label \<open>X\<close>) and \<open>/a/b\<close> (label \<open>Y\<close>), evaluating at \<open>/a/b/c\<close> gives both
  matches, \<open>Y\<close> before \<open>X\<close>.
\<close>

theorem evaluate_order:
  "sorted_wrt (\<lambda>a b. length (path b) \<le> length (path a))
     (map rule (evaluatePathRules host wd config labels))
   \<and> subseq (filter (\<lambda>r. length (path r) = k)
               (map rule (evaluatePathRules host wd config labels)))
            (filter (\<lambda>r. length (path r) = k) (rules config))
   \<and> evaluatePathRules (posix_host cwd) (Some ''/a/b/c'')
          \<lparr> version = 1, rules = example_rules \<rparr> None
       = [mk_match (mk_rule ''r2'' ''/a/b'' Prefix ''Y'' None),
          mk_match (mk_rule ''r1'' ''/a'' Prefix ''X'' None)]"
proof (intro conjI)
  let ?out = "map rule (evaluatePathRules host wd config labels)"
  let ?en = "filter (\<lambda>r. enabled r \<noteq> Some False) (rules config)"
  show "sorted_wrt (\<lambda>a b. length (path b) \<le> length (path a)) ?out"
    using evaluate_subseq_sorted sortedRules_sorted by (rule sorted_wrt_subseq)
  have "subseq (filter (\<lambda>r. length (path r) = k) ?out)
          (filter (\<lambda>r. length (path r) = k) (sortedRules ?en))"
    using evaluate_subseq_sorted by (rule subseq_filter)
  also have "filter (\<lambda>r. length (path r) = k) (sortedRules ?en)
      = filter (\<lambda>r. length (path r) = k) ?en"
    by (rule sortedRules_stable)
  also have "subseq \<dots> (filter (\<lambda>r. length (path r) = k) (rules config))"
    by (intro subseq_filter subseq_filter_left)
  finally show "subseq (filter (\<lambda>r. length (path r) = k) ?out)
            (filter (\<lambda>r. length (path r) = k) (rules config))" .
  show "evaluatePathRules (posix_host cwd) (Some ''/a/b/c'')
          \<lparr> version = 1, rules = example_rules \<rparr> None
       = [mk_match (mk_rule ''r2'' ''/a/b'' Prefix ''Y'' None),
          mk_match (mk_rule ''r1'' ''/a'' Prefix ''X'' None)]"
    by (rule evaluate_example)
qed

theorem evaluate_order_witness:
  "evaluatePathRules (posix_host ''/home/u'') (Some ''/a/b/c'')
          \<lparr> version = 1, rules = tie_rules \<rparr> None
       = [mk_match (mk_rule ''r2'' ''/a/b'' Prefix ''Y'' None),
          mk_match (mk_rule ''r3'' ''/a/.'' Prefix ''Z'' None),
          mk_match (mk_rule ''r1'' ''/a'' Prefix ''X'' None)]
   \<and> subseq
        (filter (\<lambda>r. length (path r) = 4)
           (map rule (evaluatePathRules (posix_host ''/home/u'') (Some ''/a/b/c'')
              \<lparr> version = 1, rules = tie_rules \<rparr> None)))
        (filter (\<lambda>r. length (path r) = 4) tie_rules)
   \<and> filter (\<lambda>r. length (path r) = 4) tie_rules
       = [mk_rule ''r2'' ''/a/b'' Prefix ''Y'' None, mk_rule ''r3'' ''/a/.'' Prefix ''Z'' None]"
proof -
  have "subseq
      (filter (\<lambda>r. length (path r) = 4)
         (map rule (evaluatePathRules (posix_host ''/home/u'') (Some ''/a/b/c'')
            \<lparr> version = 1, rules = tie_rules \<rparr> None)))
      (filter (\<lambda>r. length (path r) = 4) (rules \<lparr> version = 1, rules = tie_rules \<rparr>))"
    using evaluate_order
      [of "posix_host ''/home/u''" "Some ''/a/b/c''" "\<lparr> version = 1, rules = tie_rules \<rparr>"
          None 4]
    by blast
  then have "subseq
      (filter (\<lambda>r. length (path r) = 4)
         (map rule (evaluatePathRules (posix_host ''/home/u'') (Some ''/a/b/c'')
            \<lparr> version = 1, rules = tie_rules \<rparr> None)))
      (filter (\<lambda>r. length (path r) = 4) tie_rules)"
    by simp
  moreover have "filter (\<lambda>r. length (path r) = 4) tie_rules
       = [mk_rule ''r2'' ''/a/b'' Prefix ''Y'' None, mk_rule ''r3'' ''/a/.'' Prefix ''Z'' None]"
    by (simp add: tie_rules_def mk_rule_def)
  ultimately show ?thesis
    using evaluate_tie_rules [of "''/home/u''" 1] by blast
qed


section \<open>Properties of the label merger\<close>

lemma newLabels_subseq: "subseq (newLabels E ms) (map labelEntry ms)"
  by (induction ms) auto

lemma hasExistingValue_mono:
  "E \<subseteq> E' \<Longrightarrow> hasExistingValue E b \<Longrightarrow> hasExistingValue E' b"
  unfolding hasExistingValue_def by blast

lemma newLabels_again:
  "E \<subseteq> E' \<Longrightarrow> set (newLabels E ms) \<subseteq> E' \<Longrightarrow> newLabels E' ms = []"
proof (induction ms)
  case Nil
  show ?case by simp
next
  case (Cons m ms)
  show ?case
  proof (cases "labelEntry m \<notin> E \<and> \<not> hasExistingValue E (bareId (labelEntry m))")
    case True
    with Cons.prems have "labelEntry m \<in> E'" and "set (newLabels E ms) \<subseteq> E'"
      by simp_all
    with Cons.IH Cons.prems(1) show ?thesis by simp
  next
    case False
    with Cons.prems have rest: "set (newLabels E ms) \<subseteq> E'"
      by auto
    from False Cons.prems(1)
    have "labelEntry m \<in> E' \<or> hasExistingValue E' (bareId (labelEntry m))"
      using hasExistingValue_mono by blast
    with Cons.IH [OF Cons.prems(1) rest] show ?thesis by auto
  qed
qed

lemma newLabels_fresh:
  "e \<in> set (newLabels E ms) \<Longrightarrow> e \<notin> E \<and> \<not> hasExistingValue E (bareId e)"
  by (induction ms) (auto split: if_splits)

lemma newLabels_empty_iff:
  "(\<forall>m \<in> set ms. labelEntry m \<in> E \<or> hasExistingValue E (bareId (labelEntry m)))
     \<Longrightarrow> newLabels E ms = []"
  by (induction ms) auto

lemma set_orEmpty_apply:
  "set (orEmpty (applyPathRuleMatches cur ms))
     = set (orEmpty cur) \<union> set (newLabels (set (orEmpty cur)) ms)"
  by (cases ms) (auto simp: applyPathRuleMatches_def orEmpty_def Let_def)

lemma newLabels_after_apply:
  "newLabels (set (orEmpty (applyPathRuleMatches cur ms))) ms = []"
  by (rule newLabels_again [of "set (orEmpty cur)"]) (simp_all add: set_orEmpty_apply)

lemma apply_again:
  "applyPathRuleMatches (applyPathRuleMatches cur ms) ms = applyPathRuleMatches cur ms"
proof -
  have "applyPathRuleMatches once ms = once"
    if "newLabels (set (orEmpty once)) ms = []" for once
    using that by (simp add: applyPathRuleMatches_def)
  then show ?thesis using newLabels_after_apply by blast
qed

lemma apply_Some:
  "applyPathRuleMatches (Some existing) ms = Some (existing @ newLabels (set existing) ms)"
  by (cases ms) (simp_all add: applyPathRuleMatches_def orEmpty_def Let_def)

lemma apply_None:
  "applyPathRuleMatches None ms
     = (if newLabels {} ms = [] then None else Some (newLabels {} ms))"
  by (cases ms) (simp_all add: applyPathRuleMatches_def orEmpty_def Let_def)

subsection \<open>The bare id of an entry\<close>

lemma bareId_cases: "l = bareId l \<or> (\<exists>rest. l = bareId l @ ''::'' @ rest)"
  by (induction l rule: bareId.induct) auto

lemma bareId_startsWith: "l = bareId l \<or> startsWith l (bareId l @ ''::'')"
  using bareId_cases [of l] unfolding startsWith_def
  by (metis append.assoc append_eq_conv_conj)

lemma bareId_head: "bareId (d # cs) = x # xs \<Longrightarrow> x = d"
  by (cases cs) (auto split: if_splits)

lemma bareId_idem: "bareId (bareId l) = bareId l"
proof (induction l rule: bareId.induct)
  case (1 c d cs)
  show ?case
  proof (cases "c = CHR '':'' \<and> d = CHR '':''")
    case True
    then show ?thesis by simp
  next
    case False
    with 1 have ih: "bareId (bareId (d # cs)) = bareId (d # cs)" by simp
    show ?thesis
    proof (cases "bareId (d # cs)")
      case Nil
      with False show ?thesis by simp
    next
      case (Cons x xs)
      then have "x = d" by (rule bareId_head)
      with False Cons ih show ?thesis by auto
    qed
  qed
qed simp_all

lemma bareId_valued: "bareId (b @ ''::'' @ v) = bareId (b @ ''::'' @ w)"
proof (induction b)
  case Nil
  show ?case by simp
next
  case (Cons c b)
  obtain d ds where d: "b @ ''::'' = d # ds" by (cases b) auto
  then have v: "b @ ''::'' @ v = d # (ds @ v)" and w: "b @ ''::'' @ w = d # (ds @ w)"
    by (metis append.assoc append_Cons)+
  from Cons.IH have ih: "bareId (d # (ds @ v)) = bareId (d # (ds @ w))"
    unfolding v w .
  have "(c # b) @ ''::'' @ v = c # d # (ds @ v)" "(c # b) @ ''::'' @ w = c # d # (ds @ w)"
    by (metis v append_Cons, metis w append_Cons)
  with ih show ?case by (simp only: bareId.simps)
qed

lemma bareId_clean_prefix:
  "bareId (b @ ''::'' @ r) = b \<Longrightarrow> startsWith l (b @ ''::'') \<Longrightarrow> bareId l = b"
proof -
  assume a: "bareId (b @ ''::'' @ r) = b" and s: "startsWith l (b @ ''::'')"
  from s obtain rest where "l = b @ ''::'' @ rest"
    unfolding startsWith_def by (metis append.assoc append_take_drop_id)
  with a bareId_valued [of b rest r] show ?thesis by simp
qed

lemma same_bareId_hasExistingValue:
  "l \<in> E \<Longrightarrow> bareId l = bareId e \<Longrightarrow> hasExistingValue E (bareId e)"
  using bareId_startsWith [of l] unfolding hasExistingValue_def by metis

lemma no_shared_bareId_fresh:
  assumes same: "bareId e1 = bareId e2" and diff: "e1 \<noteq> e2"
    and none: "\<forall>l \<in> E. bareId l \<noteq> bareId e1"
  shows "\<not> hasExistingValue E (bareId e1)"
proof
  assume "hasExistingValue E (bareId e1)"
  then obtain l where l: "l \<in> E" and c: "l = bareId e1 \<or> startsWith l (bareId e1 @ ''::'')"
    unfolding hasExistingValue_def by blast
  from same diff bareId_cases [of e1] bareId_cases [of e2]
  obtain rest where "bareId (bareId e1 @ ''::'' @ rest) = bareId e1"
    by metis
  with c have "bareId l = bareId e1"
    using bareId_idem bareId_clean_prefix by metis
  with none l show False by blast
qed

subsection \<open>Monotonicity\<close>

text \<open>
  Claim C2. The result of applying any match list to any label list is the label list
  with entries appended at its end, the appended entries taken from the matches in match
  order: every entry of the input is at its original position, none is removed, renamed or
  moved. With no label list (\<open>undefined\<close>) the result is \<open>undefined\<close> or the staged
  entries alone.
\<close>

theorem apply_appends:
  "(\<exists>staged. applyPathRuleMatches (Some existing) matches = Some (existing @ staged)
       \<and> subseq staged (map labelEntry matches))
   \<and> (\<forall>i < length existing.
         orEmpty (applyPathRuleMatches (Some existing) matches) ! i = existing ! i)
   \<and> take (length existing) (orEmpty (applyPathRuleMatches (Some existing) matches))
       = existing
   \<and> (applyPathRuleMatches None matches = None
       \<or> (\<exists>staged. applyPathRuleMatches None matches = Some staged
             \<and> subseq staged (map labelEntry matches)))"
proof (intro conjI)
  show "\<exists>staged. applyPathRuleMatches (Some existing) matches = Some (existing @ staged)
       \<and> subseq staged (map labelEntry matches)"
    using apply_Some newLabels_subseq by blast
  show "\<forall>i < length existing.
         orEmpty (applyPathRuleMatches (Some existing) matches) ! i = existing ! i"
    by (simp add: apply_Some orEmpty_def nth_append)
  show "take (length existing) (orEmpty (applyPathRuleMatches (Some existing) matches))
       = existing"
    by (simp add: apply_Some orEmpty_def)
  show "applyPathRuleMatches None matches = None
       \<or> (\<exists>staged. applyPathRuleMatches None matches = Some staged
             \<and> subseq staged (map labelEntry matches))"
    using newLabels_subseq [of "{}" matches] by (simp add: apply_None)
qed

theorem apply_appends_witness:
  "applyPathRuleMatches (Some [''bug'', ''priority::2''])
     [mk_match (mk_rule ''r1'' ''/a/b'' Prefix ''priority'' (Some ''3'')),
      mk_match (mk_rule ''r2'' ''/a/b'' Prefix ''feature'' None),
      mk_match (mk_rule ''r3'' ''/a'' Prefix ''bug'' None),
      mk_match (mk_rule ''r4'' ''/a'' Prefix ''area'' (Some ''ui''))]
     = Some [''bug'', ''priority::2'', ''feature'', ''area::ui'']
   \<and> take (length [''bug'', ''priority::2''])
        (orEmpty (applyPathRuleMatches (Some [''bug'', ''priority::2''])
           [mk_match (mk_rule ''r1'' ''/a/b'' Prefix ''priority'' (Some ''3'')),
            mk_match (mk_rule ''r2'' ''/a/b'' Prefix ''feature'' None),
            mk_match (mk_rule ''r3'' ''/a'' Prefix ''bug'' None),
            mk_match (mk_rule ''r4'' ''/a'' Prefix ''area'' (Some ''ui''))]))
     = [''bug'', ''priority::2'']"
proof -
  let ?ms = "[mk_match (mk_rule ''r1'' ''/a/b'' Prefix ''priority'' (Some ''3'')),
      mk_match (mk_rule ''r2'' ''/a/b'' Prefix ''feature'' None),
      mk_match (mk_rule ''r3'' ''/a'' Prefix ''bug'' None),
      mk_match (mk_rule ''r4'' ''/a'' Prefix ''area'' (Some ''ui''))]"
  have "applyPathRuleMatches (Some [''bug'', ''priority::2'']) ?ms
     = Some [''bug'', ''priority::2'', ''feature'', ''area::ui'']"
    by (simp add: applyPathRuleMatches_def orEmpty_def hasExistingValue_def startsWith_def
        mk_match_def mk_rule_def labelEntryOf_def)
  with apply_appends [of "[''bug'', ''priority::2'']" ?ms] show ?thesis
    by blast
qed

subsection \<open>A value already chosen is kept\<close>

text \<open>
  Claim C5. If the existing labels contain a valued entry \<open>b::v\<close> and a match proposes
  \<open>b::w\<close>, applying that match returns the existing labels unchanged. More generally,
  a match list whose entries all share their bare id with some existing label changes
  nothing, and no entry that is staged shares its bare id with an existing label.
\<close>

theorem apply_valued_conflict:
  "(b @ ''::'' @ v \<in> set existing \<longrightarrow>
      applyPathRuleMatches (Some existing) [\<lparr> rule = r, labelEntry = b @ ''::'' @ w \<rparr>]
        = Some existing)
   \<and> ((\<forall>m \<in> set matches. \<exists>l \<in> set existing. bareId l = bareId (labelEntry m)) \<longrightarrow>
        applyPathRuleMatches (Some existing) matches = Some existing)
   \<and> (\<forall>e \<in> set (newLabels (set existing) matches).
        \<forall>l \<in> set existing. bareId l \<noteq> bareId e)"
proof (intro conjI impI ballI)
  assume "b @ ''::'' @ v \<in> set existing"
  then have "hasExistingValue (set existing) (bareId (b @ ''::'' @ w))"
    using same_bareId_hasExistingValue bareId_valued by blast
  then show "applyPathRuleMatches (Some existing) [\<lparr> rule = r, labelEntry = b @ ''::'' @ w \<rparr>]
        = Some existing"
    by (simp add: apply_Some)
next
  assume "\<forall>m \<in> set matches. \<exists>l \<in> set existing. bareId l = bareId (labelEntry m)"
  then have "newLabels (set existing) matches = []"
    using same_bareId_hasExistingValue by (intro newLabels_empty_iff) blast
  then show "applyPathRuleMatches (Some existing) matches = Some existing"
    by (simp add: apply_Some)
next
  fix e l
  assume "e \<in> set (newLabels (set existing) matches)" and "l \<in> set existing"
  then show "bareId l \<noteq> bareId e"
    using newLabels_fresh same_bareId_hasExistingValue by blast
qed

theorem apply_valued_conflict_witness:
  "''priority::2'' \<in> set [''bug'', ''priority::2'']
   \<and> applyPathRuleMatches (Some [''bug'', ''priority::2''])
        [\<lparr> rule = mk_rule ''r1'' ''/a'' Prefix ''priority'' (Some ''3''),
           labelEntry = ''priority::3'' \<rparr>]
       = Some [''bug'', ''priority::2'']"
  using apply_valued_conflict
    [of "''priority''" "''2''" "[''bug'', ''priority::2'']"
        "mk_rule ''r1'' ''/a'' Prefix ''priority'' (Some ''3'')" "''3''"]
  by simp

subsection \<open>Two values for one bare id in one evaluation\<close>

text \<open>
  Claim C3 says that of two matches of one evaluation whose entries share a bare id and
  differ in their value, only the first is staged when no existing label has that bare id.
  The code stages both: the set \<open>existingLabels\<close> is built before the loop and is not
  extended by the entries the loop stages. The rules \<open>priority::2\<close> and \<open>priority::3\<close>
  for the same path, evaluated and applied to the empty label list, give both entries.
\<close>

theorem apply_stages_second_counterexample:
  "evaluatePathRules (posix_host ''/'') (Some ''/a'')
       \<lparr> version = 1,
         rules = [mk_rule ''r1'' ''/a'' Exact ''priority'' (Some ''2''),
                  mk_rule ''r2'' ''/a'' Exact ''priority'' (Some ''3'')] \<rparr> None
     = [mk_match (mk_rule ''r1'' ''/a'' Exact ''priority'' (Some ''2'')),
        mk_match (mk_rule ''r2'' ''/a'' Exact ''priority'' (Some ''3''))]
   \<and> applyPathRuleMatches (Some [])
        [mk_match (mk_rule ''r1'' ''/a'' Exact ''priority'' (Some ''2'')),
         mk_match (mk_rule ''r2'' ''/a'' Exact ''priority'' (Some ''3''))]
     = Some [''priority::2'', ''priority::3'']"
proof -
  have m: "matchesPath (posix_host ''/'') ''/a'' ''/a'' Exact"
    by (simp add: posix_defs)
  show ?thesis
    by (simp add: evaluatePathRules_def sortedRules_def mk_rule_def mk_match_def
        labelEntryOf_def Let_def applyPathRuleMatches_def orEmpty_def hasExistingValue_def m)
qed

text \<open>
  Claim C3 as amended. When two matches carry different entries with the same bare id and
  no existing label has that bare id, both entries are staged, in match order.
\<close>

theorem apply_stages_both_values:
  assumes "bareId (labelEntry m1) = bareId (labelEntry m2)"
    and "labelEntry m1 \<noteq> labelEntry m2"
    and "\<forall>l \<in> set existing. bareId l \<noteq> bareId (labelEntry m1)"
  shows "newLabels (set existing) [m1, m2] = [labelEntry m1, labelEntry m2]
    \<and> applyPathRuleMatches (Some existing) [m1, m2]
        = Some (existing @ [labelEntry m1, labelEntry m2])"
proof -
  have f1: "\<not> hasExistingValue (set existing) (bareId (labelEntry m1))"
    using assms by (rule no_shared_bareId_fresh)
  have n1: "labelEntry m1 \<notin> set existing" and n2: "labelEntry m2 \<notin> set existing"
    using assms(1,3) by auto
  from f1 n1 n2 assms(1) show ?thesis
    by (simp add: apply_Some)
qed

theorem apply_stages_both_values_witness:
  "newLabels (set [''bug''])
     [mk_match (mk_rule ''r1'' ''/a'' Exact ''priority'' (Some ''2'')),
      mk_match (mk_rule ''r2'' ''/a'' Exact ''priority'' (Some ''3''))]
     = [''priority::2'', ''priority::3'']
   \<and> applyPathRuleMatches (Some [''bug''])
        [mk_match (mk_rule ''r1'' ''/a'' Exact ''priority'' (Some ''2'')),
         mk_match (mk_rule ''r2'' ''/a'' Exact ''priority'' (Some ''3''))]
     = Some [''bug'', ''priority::2'', ''priority::3'']"
  using apply_stages_both_values
    [of "mk_match (mk_rule ''r1'' ''/a'' Exact ''priority'' (Some ''2''))"
        "mk_match (mk_rule ''r2'' ''/a'' Exact ''priority'' (Some ''3''))" "[''bug'']"]
  by (simp add: mk_match_def mk_rule_def labelEntryOf_def)

subsection \<open>Idempotence\<close>

text \<open>
  Claim C1. For every working directory, rule configuration, optional label tree and
  existing label list, evaluating the rules and applying the matches, and then evaluating
  and applying again on the resulting labels, gives the labels of the single application;
  the second application stages no entry.
\<close>

theorem evaluate_apply_idempotent:
  "applyPathRuleMatches
     (applyPathRuleMatches currentLabels (evaluatePathRules host wd config labels))
     (evaluatePathRules host wd config labels)
   = applyPathRuleMatches currentLabels (evaluatePathRules host wd config labels)
   \<and> newLabels
       (set (orEmpty (applyPathRuleMatches currentLabels
                        (evaluatePathRules host wd config labels))))
       (evaluatePathRules host wd config labels) = []"
  by (simp add: apply_again newLabels_after_apply)

theorem evaluate_apply_idempotent_witness:
  "applyPathRuleMatches (Some [''priority::2''])
      (evaluatePathRules (posix_host ''/home/u'') (Some ''/a/b/c'')
         \<lparr> version = 1, rules = example_rules \<rparr> None)
     = Some [''priority::2'', ''Y'', ''X'']
   \<and> applyPathRuleMatches (Some [''priority::2'', ''Y'', ''X''])
      (evaluatePathRules (posix_host ''/home/u'') (Some ''/a/b/c'')
         \<lparr> version = 1, rules = example_rules \<rparr> None)
     = Some [''priority::2'', ''Y'', ''X'']"
proof -
  have once: "applyPathRuleMatches (Some [''priority::2''])
      (evaluatePathRules (posix_host ''/home/u'') (Some ''/a/b/c'')
         \<lparr> version = 1, rules = example_rules \<rparr> None)
     = Some [''priority::2'', ''Y'', ''X'']"
    by (simp add: evaluate_example applyPathRuleMatches_def orEmpty_def hasExistingValue_def
        startsWith_def mk_match_def mk_rule_def labelEntryOf_def)
  with evaluate_apply_idempotent
    [of "Some [''priority::2'']" "posix_host ''/home/u''" "Some ''/a/b/c''"
        "\<lparr> version = 1, rules = example_rules \<rparr>" None]
  show ?thesis by simp
qed


section \<open>Properties of the rule store\<close>

lemma isValidRule_object:
  "isValidRule (JObject kvs) \<longleftrightarrow>
     (\<exists>s. map_of kvs ''id'' = Some (JString s))
     \<and> (\<exists>s. map_of kvs ''path'' = Some (JString s))
     \<and> map_of kvs ''match'' \<in> {Some (JString ''exact''), Some (JString ''prefix'')}
     \<and> (\<exists>s. map_of kvs ''labelId'' = Some (JString s))"
proof -
  have "isString v \<longleftrightarrow> (\<exists>s. v = Some (JString s))" for v
    by (cases v rule: isString.cases) simp_all
  then show ?thesis
    by (simp add: isValidRule_def)
qed

lemma isValidRule_not_object:
  "isValidRule JNull = False" "isValidRule (JBool b) = False" "isValidRule (JNumber n) = False"
  "isValidRule (JString s) = False" "isValidRule (JArray vs) = False"
  by (simp_all add: isValidRule_def)

lemma load_total:
  "loadPathRulesConfig host root
     = Inr (case load_try host (getPathRulesPath host root) of
              Inl e \<Rightarrow> createDefaultConfig
            | Inr config \<Rightarrow> config)"
  by (simp add: loadPathRulesConfig_def split: sum.splits)

lemma load_try_version:
  "load_try host p = Inr config \<Longrightarrow> version config = 1"
  by (auto simp: load_try_def createDefaultConfig_def split: if_splits sum.splits)

text \<open>
  Claim C8. Loading never raises: it always returns a rule set. When the document is
  absent, cannot be read, cannot be parsed, or has no array of rules, the rule set is the
  empty default. When the parsed document has an array of rules, the rule set holds
  exactly the valid entries of the array, in their original order, an entry being valid
  when it is an object with a string \<open>id\<close>, a string \<open>path\<close>, a \<open>match\<close> that is
  \<open>exact\<close> or \<open>prefix\<close>, and a string \<open>labelId\<close>. A document with an entry without
  \<open>path\<close> between two valid entries loads as the two valid entries.
\<close>

theorem load_never_raises_keeps_valid:
  "(\<exists>config. loadPathRulesConfig host root = Inr config)
   \<and> (\<not> existsSync host (getPathRulesPath host root) \<longrightarrow>
        loadPathRulesConfig host root = Inr createDefaultConfig)
   \<and> (existsSync host (getPathRulesPath host root)
        \<and> readFileSync host (getPathRulesPath host root) = Inl e \<longrightarrow>
        loadPathRulesConfig host root = Inr createDefaultConfig)
   \<and> (existsSync host (getPathRulesPath host root)
        \<and> readFileSync host (getPathRulesPath host root) = Inr content
        \<and> JSON_parse host content = Inl e \<longrightarrow>
        loadPathRulesConfig host root = Inr createDefaultConfig)
   \<and> (existsSync host (getPathRulesPath host root)
        \<and> readFileSync host (getPathRulesPath host root) = Inr content
        \<and> JSON_parse host content = Inr parsed
        \<and> (\<forall>rs. get_prop parsed ''rules'' \<noteq> Some (JArray rs)) \<longrightarrow>
        loadPathRulesConfig host root = Inr createDefaultConfig)
   \<and> (existsSync host (getPathRulesPath host root)
        \<and> readFileSync host (getPathRulesPath host root) = Inr content
        \<and> JSON_parse host content = Inr parsed
        \<and> get_prop parsed ''rules'' = Some (JArray rs) \<longrightarrow>
        loadPathRulesConfig host root
          = Inr \<lparr> version = 1, rules = filter isValidRule rs \<rparr>)
   \<and> (isValidRule r \<longleftrightarrow>
        (\<exists>kvs i p l. r = JObject kvs
           \<and> map_of kvs ''id'' = Some (JString i)
           \<and> map_of kvs ''path'' = Some (JString p)
           \<and> map_of kvs ''match'' \<in> {Some (JString ''exact''), Some (JString ''prefix'')}
           \<and> map_of kvs ''labelId'' = Some (JString l)))"
proof (intro conjI impI)
  show "isValidRule r \<longleftrightarrow>
        (\<exists>kvs i p l. r = JObject kvs
           \<and> map_of kvs ''id'' = Some (JString i)
           \<and> map_of kvs ''path'' = Some (JString p)
           \<and> map_of kvs ''match'' \<in> {Some (JString ''exact''), Some (JString ''prefix'')}
           \<and> map_of kvs ''labelId'' = Some (JString l))"
    by (cases r) (auto simp: isValidRule_object isValidRule_not_object)
  show "\<exists>config. loadPathRulesConfig host root = Inr config"
    using load_total by blast
  show "loadPathRulesConfig host root = Inr createDefaultConfig"
    if "\<not> existsSync host (getPathRulesPath host root)"
    using that by (simp add: load_total load_try_def)
  show "loadPathRulesConfig host root = Inr createDefaultConfig"
    if "existsSync host (getPathRulesPath host root)
        \<and> readFileSync host (getPathRulesPath host root) = Inl e"
    using that by (simp add: load_total load_try_def)
  show "loadPathRulesConfig host root = Inr createDefaultConfig"
    if "existsSync host (getPathRulesPath host root)
        \<and> readFileSync host (getPathRulesPath host root) = Inr content
        \<and> JSON_parse host content = Inl e"
    using that by (simp add: load_total load_try_def)
  show "loadPathRulesConfig host root = Inr createDefaultConfig"
    if "existsSync host (getPathRulesPath host root)
        \<and> readFileSync host (getPathRulesPath host root) = Inr content
        \<and> JSON_parse host content = Inr parsed
        \<and> (\<forall>rs. get_prop parsed ''rules'' \<noteq> Some (JArray rs))"
    using that
    by (auto simp: load_total load_try_def createDefaultConfig_def
        split: option.splits json.splits)
  show "loadPathRulesConfig host root = Inr \<lparr> version = 1, rules = filter isValidRule rs \<rparr>"
    if "existsSync host (getPathRulesPath host root)
        \<and> readFileSync host (getPathRulesPath host root) = Inr content
        \<and> JSON_parse host content = Inr parsed
        \<and> get_prop parsed ''rules'' = Some (JArray rs)"
  proof -
    from that have "typeof parsed = TObject" and "parsed \<noteq> JNull"
      by (cases parsed; simp)+
    with that show ?thesis
      by (simp add: load_total load_try_def)
  qed
qed

theorem load_never_raises_keeps_valid_witness:
  "loadPathRulesConfig (host_with_document (document_with_version (JNumber 1))) ''/ws''
     = Inr \<lparr> version = 1,
             rules =
               [JObject [(''id'', JString ''r1''), (''path'', JString ''/a''),
                         (''match'', JString ''prefix''), (''labelId'', JString ''X'')],
                JObject [(''id'', JString ''r3''), (''path'', JString ''/a/b''),
                         (''match'', JString ''exact''), (''labelId'', JString ''Z''),
                         (''value'', JString ''1''), (''enabled'', JBool False)]] \<rparr>"
proof -
  let ?d = "document_with_version (JNumber 1)"
  let ?h = "host_with_document ?d"
  have pre: "existsSync ?h (getPathRulesPath ?h ''/ws'')
        \<and> readFileSync ?h (getPathRulesPath ?h ''/ws'') = Inr ''(document)''
        \<and> JSON_parse ?h ''(document)'' = Inr ?d
        \<and> get_prop ?d ''rules'' = Some (JArray example_entries)"
    by (simp add: host_with_document_def document_with_version_def)
  have "loadPathRulesConfig ?h ''/ws''
      = Inr \<lparr> version = 1, rules = filter isValidRule example_entries \<rparr>"
    using load_never_raises_keeps_valid
      [of ?h "''/ws''" _ "''(document)''" ?d example_entries] pre
    by blast
  then show ?thesis by (simp add: example_entries_def isValidRule_def)
qed

text \<open>
  Claim C10. The rule set that loading returns always has version 1. The version field
  of the document is not read: the result depends on the document's \<open>rules\<close> property
  only, so a document that declares another version, or none, is neither rejected nor
  migrated, and its valid rules are loaded.
\<close>

theorem load_version_always_1:
  "(\<exists>config. loadPathRulesConfig host root = Inr config \<and> version config = 1)
   \<and> (map_of kvs ''rules'' = map_of kvs' ''rules'' \<longrightarrow>
        loadPathRulesConfig (host \<lparr> JSON_parse := \<lambda>s. Inr (JObject kvs) \<rparr>) root
        = loadPathRulesConfig (host \<lparr> JSON_parse := \<lambda>s. Inr (JObject kvs') \<rparr>) root)
   \<and> (existsSync host (getPathRulesPath host root)
        \<and> readFileSync host (getPathRulesPath host root) = Inr content
        \<and> JSON_parse host content = Inr (JObject ((''version'', v) # kvs)) \<longrightarrow>
        loadPathRulesConfig host root
          = Inr \<lparr> version = 1,
                  rules = (case map_of kvs ''rules'' of
                             Some (JArray rs) \<Rightarrow> filter isValidRule rs
                           | _ \<Rightarrow> []) \<rparr>)"
proof (intro conjI impI)
  show "\<exists>config. loadPathRulesConfig host root = Inr config \<and> version config = 1"
    using load_try_version [of host "getPathRulesPath host root"]
    by (auto simp: load_total createDefaultConfig_def split: sum.splits)
  show "loadPathRulesConfig (host \<lparr> JSON_parse := \<lambda>s. Inr (JObject kvs) \<rparr>) root
        = loadPathRulesConfig (host \<lparr> JSON_parse := \<lambda>s. Inr (JObject kvs') \<rparr>) root"
    if "map_of kvs ''rules'' = map_of kvs' ''rules''"
    using that
    by (simp add: load_total load_try_def getPathRulesPath_def split: sum.splits)
  show "loadPathRulesConfig host root
          = Inr \<lparr> version = 1,
                  rules = (case map_of kvs ''rules'' of
                             Some (JArray rs) \<Rightarrow> filter isValidRule rs
                           | _ \<Rightarrow> []) \<rparr>"
    if "existsSync host (getPathRulesPath host root)
        \<and> readFileSync host (getPathRulesPath host root) = Inr content
        \<and> JSON_parse host content = Inr (JObject ((''version'', v) # kvs))"
    using that by (simp add: load_total load_try_def)
qed

theorem load_version_always_1_witness:
  "loadPathRulesConfig (host_with_document (document_with_version (JNumber 2))) ''/ws''
     = loadPathRulesConfig (host_with_document (document_with_version (JNumber 1))) ''/ws''
   \<and> loadPathRulesConfig (host_with_document (document_with_version (JString ''next''))) ''/ws''
     = Inr \<lparr> version = 1, rules = filter isValidRule example_entries \<rparr>"
proof -
  let ?h = "host_with_document JNull"
  have e: "?h \<lparr> JSON_parse := \<lambda>s. Inr d \<rparr> = host_with_document d" for d
    by (simp add: host_with_document_def)
  have "loadPathRulesConfig
          (?h \<lparr> JSON_parse := \<lambda>s. Inr (JObject [(''version'', JNumber 2),
                                                  (''rules'', JArray example_entries)]) \<rparr>) ''/ws''
      = loadPathRulesConfig
          (?h \<lparr> JSON_parse := \<lambda>s. Inr (JObject [(''version'', JNumber 1),
                                                  (''rules'', JArray example_entries)]) \<rparr>) ''/ws''"
    using load_version_always_1
      [of ?h "''/ws''" "[(''version'', JNumber 2), (''rules'', JArray example_entries)]"
          "[(''version'', JNumber 1), (''rules'', JArray example_entries)]"]
    by simp
  then have "loadPathRulesConfig (host_with_document (document_with_version (JNumber 2))) ''/ws''
     = loadPathRulesConfig (host_with_document (document_with_version (JNumber 1))) ''/ws''"
    by (simp only: e document_with_version_def)
  moreover
  have "loadPathRulesConfig (host_with_document (document_with_version (JString ''next''))) ''/ws''
     = Inr \<lparr> version = 1, rules = filter isValidRule example_entries \<rparr>"
    by (simp add: load_total load_try_def host_with_document_def document_with_version_def)
  ultimately show ?thesis by blast
qed

end
